theory Spec2Isabelle
  imports Main "HOL-Library.Char_ord" "HOL-Library.List_Lexorder" "HOL-Library.Sublist"
begin

section \<open>Python strings\<close>

text \<open>
  A Python \<open>str\<close> is modelled as a \<open>string\<close>, one \<open>char\<close> per code point, so the
  model covers the code points 0 to 255.

  \<^item> \<open>str.lower\<close> moves \<open>A\<close> to \<open>Z\<close> and the code points 192 to 222 except 215 (the
    multiplication sign) up by 32; no other code point below 256 has a lower-case form.
  \<^item> \<open>str.strip\<close> removes the code points for which \<open>str.isspace\<close> holds: 9 to 13,
    28 to 32, 133 and 160.
  \<^item> \<open>py_upper\<close> moves the 26 letters \<open>a\<close> to \<open>z\<close>. It stands for \<open>str.upper\<close> on
    hexadecimal digits and on the status text in which \<open>OK\<close> is searched, and for the
    comparison without regard to case with the tags \<open>VID_\<close> and \<open>PID_\<close>. No other code
    point below 256 has an upper-case form that holds a letter of \<open>OK\<close> or matches a
    letter of the tags, so these three uses are exact.
\<close>

definition py_upper_char :: "char \<Rightarrow> char" where
  "py_upper_char c =
     (let n = (of_char c :: nat) in if 97 \<le> n \<and> n \<le> 122 then char_of (n - 32) else c)"

definition py_lower_char :: "char \<Rightarrow> char" where
  "py_lower_char c =
     (let n = (of_char c :: nat)
      in if (65 \<le> n \<and> n \<le> 90) \<or> (192 \<le> n \<and> n \<le> 222 \<and> n \<noteq> 215)
         then char_of (n + 32) else c)"

definition py_upper :: "string \<Rightarrow> string" where
  "py_upper s = map py_upper_char s"

definition py_lower :: "string \<Rightarrow> string" where
  "py_lower s = map py_lower_char s"

definition py_isspace :: "char \<Rightarrow> bool" where
  "py_isspace c =
     (let n = (of_char c :: nat)
      in (9 \<le> n \<and> n \<le> 13) \<or> (28 \<le> n \<and> n \<le> 32) \<or> n = 133 \<or> n = 160)"

definition py_strip :: "string \<Rightarrow> string" where
  "py_strip s = rev (dropWhile py_isspace (rev (dropWhile py_isspace s)))"

text \<open>\<open>pat in s\<close> for strings: \<open>pat\<close> occurs in \<open>s\<close> as a contiguous run.\<close>

fun py_in :: "string \<Rightarrow> string \<Rightarrow> bool" where
  "py_in pat [] = (pat = [])"
| "py_in pat (c # cs) = (take (length pat) (c # cs) = pat \<or> py_in pat cs)"

text \<open>Truth value of a value that is \<open>None\<close> or a string: only a non-empty string is true.\<close>

definition truthy :: "string option \<Rightarrow> bool" where
  "truthy v = (case v of None \<Rightarrow> False | Some s \<Rightarrow> s \<noteq> [])"

section \<open>Vendor and product identifiers\<close>

text \<open>
  \<open>re.search(r'VID_([0-9A-Fa-f]{4})', id_string, re.IGNORECASE)\<close>: the pattern is a
  literal tag of four characters, compared without regard to case, and a group of four
  hexadecimal digits. \<open>re.search\<close> tries every start position from the left and
  returns the first match; \<open>group(1)\<close> is the four digits.
\<close>

definition is_hex :: "char \<Rightarrow> bool" where
  "is_hex c =
     (let n = (of_char c :: nat)
      in (48 \<le> n \<and> n \<le> 57) \<or> (65 \<le> n \<and> n \<le> 70) \<or> (97 \<le> n \<and> n \<le> 102))"

definition match_at :: "string \<Rightarrow> string \<Rightarrow> bool" where
  "match_at tag s =
     (py_upper (take 4 s) = tag \<and> length (take 4 (drop 4 s)) = 4
      \<and> list_all is_hex (take 4 (drop 4 s)))"

fun re_search :: "string \<Rightarrow> string \<Rightarrow> string option" where
  "re_search tag [] = None"
| "re_search tag (c # cs) =
     (if match_at tag (c # cs) then Some (take 4 (drop 4 (c # cs))) else re_search tag cs)"

definition extract_vid_pid :: "string \<Rightarrow> string option \<times> string option" where
  "extract_vid_pid id_string =
     (let vid_match = re_search ''VID_'' id_string;
          pid_match = re_search ''PID_'' id_string;
          vid = (case vid_match of Some g \<Rightarrow> Some (py_upper g) | None \<Rightarrow> None);
          pid = (case pid_match of Some g \<Rightarrow> Some (py_upper g) | None \<Rightarrow> None)
      in (vid, pid))"

text \<open>
  \<open>str(x)\<close> for the scalar values a decoded JSON object can hold. Integers print in
  decimal; fractional numbers are not modelled.
\<close>

datatype jscalar = JNull | JBool bool | JInt int | JStr string

definition digit_char :: "nat \<Rightarrow> char" where
  "digit_char d = char_of (48 + d)"

function show_nat :: "nat \<Rightarrow> string" where
  "show_nat n = (if n < 10 then [digit_char n] else show_nat (n div 10) @ [digit_char (n mod 10)])"
  by pat_completeness auto
termination
  by (relation "measure (\<lambda>n. n)") auto

definition py_str :: "jscalar \<Rightarrow> string" where
  "py_str v =
     (case v of
        JNull \<Rightarrow> ''None''
      | JBool b \<Rightarrow> (if b then ''True'' else ''False'')
      | JInt i \<Rightarrow> (if i < 0 then CHR ''-'' # show_nat (nat (- i)) else show_nat (nat i))
      | JStr s \<Rightarrow> s)"

section \<open>Device status\<close>

datatype device_status = Enabled | Disabled | Unknown

text \<open>
  The object \<open>Get-PnpDevice ... | ConvertTo-Json\<close> prints for one device, after
  \<open>json.loads\<close>. A field is \<open>None\<close> when the key is absent.
\<close>

record device_props =
  Present :: "jscalar option"
  ConfigManagerErrorCode :: "jscalar option"
  Status :: "jscalar option"

text \<open>\<open>d.get(key, "")\<close> followed by \<open>str\<close>.\<close>

definition get_str :: "jscalar option \<Rightarrow> string" where
  "get_str field = (case field of None \<Rightarrow> [] | Some v \<Rightarrow> py_str v)"

text \<open>The decision of \<open>get_device_status\<close> once the properties are a dictionary.\<close>

definition status_of_props :: "device_props \<Rightarrow> device_status" where
  "status_of_props props =
     (let present_status = Present props in
      if present_status = Some (JBool False) then Disabled
      else
        let config_manager_error_code = py_strip (get_str (ConfigManagerErrorCode props));
            status_text = py_upper (py_strip (get_str (Status props)))
        in if config_manager_error_code = ''22'' then Disabled
           else if config_manager_error_code = ''0'' then Enabled
           else if py_in ''OK'' status_text then Enabled
           else Unknown)"

text \<open>
  What \<open>json.loads(stdout)\<close> gives for the status query: a decoding error, an object,
  an array of objects, or some other value. The decoder is a parameter of the model.
\<close>

datatype status_json = StatusInvalid | StatusObject device_props
  | StatusArray "device_props list" | StatusOther

definition get_device_status :: "(string \<Rightarrow> status_json) \<Rightarrow> string \<times> string \<times> int \<Rightarrow> device_status" where
  "get_device_status loads run =
     (case run of (stdout, stderr, returncode) \<Rightarrow>
        if returncode = 0 \<and> stdout \<noteq> [] then
          (case loads stdout of
             StatusInvalid \<Rightarrow> Unknown
           | StatusObject props \<Rightarrow> status_of_props props
           | StatusArray [] \<Rightarrow> Unknown
           | StatusArray (props # _) \<Rightarrow> status_of_props props
           | StatusOther \<Rightarrow> Unknown)
        else Unknown)"

section \<open>The override store and its file\<close>

type_synonym device_database = "string \<rightharpoonup> string"

datatype py_exn = JSONDecodeError | UnicodeDecodeError | OSError

text \<open>
  The file \<open>device_names.json\<close>: missing, holding bytes that are no JSON document, or
  holding the JSON object of a store.
\<close>

datatype disk_file = Missing | Damaged | Stored device_database

datatype console_line = CouldNotDecode | ErrorLoading py_exn | ErrorSaving py_exn

text \<open>
  \<open>with open(...) as f: return json.load(f)\<close>. The first argument is a fault of the
  operating system while the file is opened or read, if there is one.
\<close>

definition open_and_json_load :: "py_exn option \<Rightarrow> disk_file \<Rightarrow> py_exn + device_database" where
  "open_and_json_load fault file =
     (case fault of
        Some e \<Rightarrow> Inl e
      | None \<Rightarrow>
          (case file of
             Missing \<Rightarrow> Inl OSError
           | Damaged \<Rightarrow> Inl JSONDecodeError
           | Stored db \<Rightarrow> Inr db))"

definition path_exists :: "disk_file \<Rightarrow> bool" where
  "path_exists file = (case file of Missing \<Rightarrow> False | _ \<Rightarrow> True)"

definition load_device_database ::
  "py_exn option \<Rightarrow> disk_file \<Rightarrow> console_line list \<times> (py_exn + device_database)" where
  "load_device_database fault file =
     (if path_exists file then
        (case open_and_json_load fault file of
           Inr db \<Rightarrow> ([], Inr db)
         | Inl JSONDecodeError \<Rightarrow> ([CouldNotDecode], Inr Map.empty)
         | Inl e \<Rightarrow> ([ErrorLoading e], Inr Map.empty))
      else ([], Inr Map.empty))"

text \<open>
  The outcome of \<open>open(..., 'w')\<close> and \<open>json.dump\<close>. Opening for writing truncates
  the file, so a failure of \<open>json.dump\<close> leaves a file that is no JSON document.
\<close>

datatype write_env = WriteOk | OpenFails py_exn | DumpFails py_exn

definition save_device_database ::
  "write_env \<Rightarrow> device_database \<Rightarrow> disk_file \<Rightarrow> console_line list \<times> disk_file" where
  "save_device_database env db file =
     (case env of
        WriteOk \<Rightarrow> ([], Stored db)
      | OpenFails e \<Rightarrow> ([ErrorSaving e], file)
      | DumpFails e \<Rightarrow> ([ErrorSaving e], Damaged))"

section \<open>Editing a custom name\<close>

datatype dialog = NameUpdated string string | NameRemoved string

text \<open>
  The part of the application object that \<open>_save_custom_name\<close> reads and writes: the
  store in memory, the file, what was printed, the message boxes shown and the number
  of refreshes of the device list that were started.
\<close>

record app =
  device_db :: device_database
  disk :: disk_file
  console :: "console_line list"
  dialogs :: "dialog list"
  populate_calls :: nat

text \<open>
  \<open>new_name\<close> is \<open>None\<close> or a string; both \<open>None\<close> and the empty string are false.
  The first component of the result is what the caller gets: an exception or the
  return value \<open>None\<close>. Every exception of the write is caught in
  \<open>save_device_database\<close>, so no branch returns one.
\<close>

definition save_custom_name ::
  "write_env \<Rightarrow> string option \<Rightarrow> string \<Rightarrow> app \<Rightarrow> (py_exn + unit) \<times> app" where
  "save_custom_name env new_name device_key self =
     (if truthy new_name then
        (let name = (case new_name of Some n \<Rightarrow> n | None \<Rightarrow> []);
             db = (device_db self)(device_key \<mapsto> name);
             (printed, file) = save_device_database env db (disk self)
         in (Inr (),
             self\<lparr>device_db := db,
                  dialogs := dialogs self @ [NameUpdated device_key name],
                  disk := file,
                  console := console self @ printed,
                  populate_calls := Suc (populate_calls self)\<rparr>))
      else if device_key \<in> dom (device_db self) then
        (let db = (device_db self)(device_key := None);
             (printed, file) = save_device_database env db (disk self)
         in (Inr (),
             self\<lparr>device_db := db,
                  dialogs := dialogs self @ [NameRemoved device_key],
                  disk := file,
                  console := console self @ printed,
                  populate_calls := Suc (populate_calls self)\<rparr>))
      else (Inr (), self))"

text \<open>The dialog's save button: the text of the entry field is stripped first.\<close>

definition save_and_close ::
  "write_env \<Rightarrow> string \<Rightarrow> string \<Rightarrow> app \<Rightarrow> (py_exn + unit) \<times> app" where
  "save_and_close env entry_text device_key self =
     (let new_name = py_strip entry_text in save_custom_name env (Some new_name) device_key self)"

text \<open>A run of edits, each with the outcome of its write.\<close>

fun run_edits :: "(write_env \<times> string option \<times> string) list \<Rightarrow> app \<Rightarrow> app" where
  "run_edits [] self = self"
| "run_edits ((env, new_name, device_key) # rest) self =
     run_edits rest (snd (save_custom_name env new_name device_key self))"

section \<open>The device list\<close>

text \<open>
  The value of \<open>HardwareId\<close>: JSON \<open>null\<close>, one string, or an array of strings. An
  absent key reads as the empty array.
\<close>

datatype hardware_ids = HwNull | HwStr string | HwList "string list"

record dev_info =
  DeviceDescription :: "string option"
  FriendlyName :: "string option"
  InstanceId :: "string option"
  HardwareId :: hardware_ids

record device =
  display_name :: string
  id' :: string
  hardware_id :: hardware_ids
  vid_pid_key :: "string option"
  full_info :: dev_info

text \<open>\<open>a or b\<close> on values that are \<open>None\<close> or strings.\<close>

definition py_or :: "string option \<Rightarrow> string option \<Rightarrow> string option" where
  "py_or a b = (if truthy a then a else b)"

text \<open>A value inside an f-string.\<close>

definition py_format :: "string option \<Rightarrow> string" where
  "py_format v = (case v of None \<Rightarrow> ''None'' | Some s \<Rightarrow> s)"

definition both_found :: "string option \<times> string option \<Rightarrow> bool" where
  "both_found vp = (truthy (fst vp) \<and> truthy (snd vp))"

text \<open>\<open>isinstance(hardware_ids, str)\<close>: one string becomes a list of one string.\<close>

definition as_list :: "hardware_ids \<Rightarrow> hardware_ids" where
  "as_list h = (case h of HwStr s \<Rightarrow> HwList [s] | _ \<Rightarrow> h)"

definition entries_of :: "hardware_ids \<Rightarrow> string list" where
  "entries_of h = (case h of HwList l \<Rightarrow> l | HwStr s \<Rightarrow> [s] | HwNull \<Rightarrow> [])"

text \<open>
  The loop over the hardware identifiers: each entry overwrites \<open>vid, pid\<close>, and the
  loop stops at the first entry that gives both.
\<close>

fun scan_hardware_ids ::
  "string list \<Rightarrow> string option \<times> string option \<Rightarrow> string option \<times> string option" where
  "scan_hardware_ids [] vp = vp"
| "scan_hardware_ids (hwid_entry # rest) vp =
     (let vp' = extract_vid_pid hwid_entry
      in if both_found vp' then vp' else scan_hardware_ids rest vp')"

definition find_vid_pid :: "dev_info \<Rightarrow> string option \<times> string option" where
  "find_vid_pid dev =
     (let instance_id = InstanceId dev;
          hardware_ids = as_list (HardwareId dev);
          vp = (if truthy instance_id then extract_vid_pid (py_format instance_id)
                else (None, None))
      in if \<not> both_found vp \<and> entries_of hardware_ids \<noteq> []
         then scan_hardware_ids (entries_of hardware_ids) vp else vp)"

definition device_key_of :: "dev_info \<Rightarrow> string option" where
  "device_key_of dev =
     (let vp = find_vid_pid dev
      in if both_found vp then Some (py_format (fst vp) @ '':'' @ py_format (snd vp))
         else None)"

definition final_display_name :: "device_database \<Rightarrow> dev_info \<Rightarrow> string option" where
  "final_display_name device_database dev =
     (let device_key = device_key_of dev;
          custom_name = (case device_key of Some k \<Rightarrow> device_database k | None \<Rightarrow> None);
          name = (if truthy custom_name then custom_name
                  else py_or (FriendlyName dev) (py_or (DeviceDescription dev) (InstanceId dev)))
      in case device_key of
           Some k \<Rightarrow> Some (py_format name @ '' ['' @ k @ '']'')
         | None \<Rightarrow> name)"

text \<open>
  The entry appended for one record, if any: a record without a (non-empty)
  \<open>InstanceId\<close> is not appended.
\<close>

definition appended :: "device_database \<Rightarrow> dev_info \<Rightarrow> device list" where
  "appended device_database dev =
     (if truthy (InstanceId dev) then
        [\<lparr>display_name = py_format (final_display_name device_database dev),
          id' = py_format (InstanceId dev),
          hardware_id = as_list (HardwareId dev),
          vid_pid_key = device_key_of dev,
          full_info = dev\<rparr>]
      else [])"

fun collect_devices ::
  "device_database \<Rightarrow> dev_info list \<Rightarrow> string option set \<Rightarrow> device list \<Rightarrow> device list" where
  "collect_devices device_database [] seen_ids devices_list = devices_list"
| "collect_devices device_database (dev # rest) seen_ids devices_list =
     (if InstanceId dev \<in> seen_ids
      then collect_devices device_database rest seen_ids devices_list
      else collect_devices device_database rest (insert (InstanceId dev) seen_ids)
             (devices_list @ appended device_database dev))"

text \<open>
  What \<open>json.loads(stdout)\<close> gives for the enumeration: a decoding error, one object,
  or an array of objects.
\<close>

datatype devices_json = DevicesInvalid | DevicesObject dev_info | DevicesArray "dev_info list"

definition json_data_of :: "devices_json \<Rightarrow> dev_info list" where
  "json_data_of j =
     (case j of DevicesInvalid \<Rightarrow> [] | DevicesObject d \<Rightarrow> [d] | DevicesArray ds \<Rightarrow> ds)"

definition unsorted_devices ::
  "(string \<Rightarrow> devices_json) \<Rightarrow> device_database \<Rightarrow> string \<times> string \<times> int \<Rightarrow> device list" where
  "unsorted_devices loads device_database run =
     (case run of (stdout, stderr, returncode) \<Rightarrow>
        if returncode = 0 \<and> stdout \<noteq> []
        then collect_devices device_database (json_data_of (loads stdout)) {} []
        else [])"

definition sort_name :: "device \<Rightarrow> string" where
  "sort_name x = py_lower (display_name x)"

definition get_input_devices_by_instance_id_pattern ::
  "(string \<Rightarrow> devices_json) \<Rightarrow> device_database \<Rightarrow> string \<times> string \<times> int \<Rightarrow> device list" where
  "get_input_devices_by_instance_id_pattern loads device_database run =
     sort_key sort_name (unsorted_devices loads device_database run)"

section \<open>Selection after a refresh\<close>

datatype combobox_text = ShowName string | NoDevices

record selection =
  combobox_values :: "string list"
  combobox_shown :: combobox_text
  current_selected_device_id :: "string option"
  buttons_enabled :: bool

definition update_populate_gui :: "device list \<Rightarrow> string option \<Rightarrow> selection" where
  "update_populate_gui available_devices old_selected_id =
     (let device_display_names = map display_name available_devices in
      if truthy old_selected_id
         \<and> list_ex (\<lambda>dev. Some (id' dev) = old_selected_id) available_devices then
        (case List.find (\<lambda>dev. Some (id' dev) = old_selected_id) available_devices of
           Some selected_dev \<Rightarrow>
             \<lparr>combobox_values = device_display_names,
              combobox_shown = ShowName (display_name selected_dev),
              current_selected_device_id = Some (id' selected_dev),
              buttons_enabled = True\<rparr>
         | None \<Rightarrow>
             \<lparr>combobox_values = device_display_names,
              combobox_shown = NoDevices,
              current_selected_device_id = None,
              buttons_enabled = False\<rparr>)
      else
        (case available_devices of
           first # _ \<Rightarrow>
             \<lparr>combobox_values = device_display_names,
              combobox_shown = ShowName (display_name first),
              current_selected_device_id = Some (id' first),
              buttons_enabled = True\<rparr>
         | [] \<Rightarrow>
             \<lparr>combobox_values = device_display_names,
              combobox_shown = NoDevices,
              current_selected_device_id = None,
              buttons_enabled = False\<rparr>))"

section \<open>Vocabulary of the specification\<close>

text \<open>The store invariant: no key maps to the empty name.\<close>

definition no_empty_values :: "device_database \<Rightarrow> bool" where
  "no_empty_values db = (\<forall>k. db k \<noteq> Some [])"

text \<open>The application right after a first start: nothing stored, no file.\<close>

definition app0 :: app where
  "app0 = \<lparr>device_db = Map.empty, disk = Missing, console = [], dialogs = [], populate_calls = 0\<rparr>"

text \<open>
  An occurrence of a tag with four hexadecimal digits after it, and the first such
  occurrence from the left with its digits.
\<close>

definition first_match :: "string \<Rightarrow> string \<Rightarrow> string \<Rightarrow> bool" where
  "first_match tag s g =
     (\<exists>i. match_at tag (drop i s) \<and> g = take 4 (drop 4 (drop i s))
          \<and> (\<forall>j<i. \<not> match_at tag (drop j s)))"

text \<open>
  The tag followed by exactly four hexadecimal digits: the character after the fourth
  digit, if there is one, is no hexadecimal digit.
\<close>

definition exactly_four_at :: "string \<Rightarrow> string \<Rightarrow> bool" where
  "exactly_four_at tag s =
     (match_at tag s \<and> (case drop 8 s of [] \<Rightarrow> True | c # _ \<Rightarrow> \<not> is_hex c))"

definition contains_exact :: "string \<Rightarrow> string \<Rightarrow> bool" where
  "contains_exact tag s = list_ex (\<lambda>i. exactly_four_at tag (drop i s)) [0..<length s]"

text \<open>The status classification in the words of the specification.\<close>

fun contains_OK :: "string \<Rightarrow> bool" where
  "contains_OK (a # b # cs) =
     ((a = CHR ''O'' \<or> a = CHR ''o'') \<and> (b = CHR ''K'' \<or> b = CHR ''k'') \<or> contains_OK (b # cs))"
| "contains_OK [a] = False"
| "contains_OK [] = False"

definition trimmed_is :: "string option \<Rightarrow> string \<Rightarrow> bool" where
  "trimmed_is field v = (case field of None \<Rightarrow> False | Some t \<Rightarrow> py_strip t = v)"

definition classifyStatus :: "bool option \<Rightarrow> string option \<Rightarrow> string option \<Rightarrow> device_status" where
  "classifyStatus present errorCode statusText =
     (if present = Some False then Disabled
      else if trimmed_is errorCode ''22'' then Disabled
      else if trimmed_is errorCode ''0'' then Enabled
      else if (case statusText of None \<Rightarrow> False | Some t \<Rightarrow> contains_OK (py_strip t)) then Enabled
      else Unknown)"

definition present_flag :: "jscalar option \<Rightarrow> bool option" where
  "present_flag field = (case field of Some (JBool b) \<Rightarrow> Some b | _ \<Rightarrow> None)"

definition field_text :: "jscalar option \<Rightarrow> string option" where
  "field_text field =
     (case field of None \<Rightarrow> None | Some JNull \<Rightarrow> None | Some v \<Rightarrow> Some (py_str v))"

text \<open>The device key in the words of the specification.\<close>

definition key_of_string :: "string \<Rightarrow> string option" where
  "key_of_string s =
     (case extract_vid_pid s of (Some v, Some p) \<Rightarrow> Some (v @ '':'' @ p) | _ \<Rightarrow> None)"

fun first_key :: "string list \<Rightarrow> string option" where
  "first_key [] = None"
| "first_key (h # hs) = (case key_of_string h of Some k \<Rightarrow> Some k | None \<Rightarrow> first_key hs)"

definition derived_key :: "dev_info \<Rightarrow> string option" where
  "derived_key dev =
     (case (case InstanceId dev of Some i \<Rightarrow> key_of_string i | None \<Rightarrow> None) of
        Some k \<Rightarrow> Some k
      | None \<Rightarrow> first_key (entries_of (HardwareId dev)))"

text \<open>The display name in the words of the specification.\<close>

definition fallback_name :: "dev_info \<Rightarrow> string" where
  "fallback_name dev =
     (case FriendlyName dev of
        Some (c # cs) \<Rightarrow> c # cs
      | _ \<Rightarrow>
        (case DeviceDescription dev of
           Some (c # cs) \<Rightarrow> c # cs
         | _ \<Rightarrow> (case InstanceId dev of Some i \<Rightarrow> i | None \<Rightarrow> [])))"

definition displayName :: "device_database \<Rightarrow> dev_info \<Rightarrow> string" where
  "displayName overrides dev =
     (case derived_key dev of
        None \<Rightarrow> fallback_name dev
      | Some k \<Rightarrow>
          (case overrides k of Some n \<Rightarrow> n | None \<Rightarrow> fallback_name dev) @ '' ['' @ k @ '']'')"

text \<open>The raw records an enumeration delivered.\<close>

definition records_of :: "(string \<Rightarrow> devices_json) \<Rightarrow> string \<times> string \<times> int \<Rightarrow> dev_info list" where
  "records_of loads run =
     (case run of (stdout, stderr, returncode) \<Rightarrow>
        if returncode = 0 \<and> stdout \<noteq> [] then json_data_of (loads stdout) else [])"

text \<open>The selection policy in the words of the specification.\<close>

definition selectDevice :: "device list \<Rightarrow> string option \<Rightarrow> device option" where
  "selectDevice directory previousInstanceId =
     (case (case previousInstanceId of
              Some p \<Rightarrow> List.find (\<lambda>e. id' e = p) directory
            | None \<Rightarrow> None) of
        Some e \<Rightarrow> Some e
      | None \<Rightarrow> (case directory of [] \<Rightarrow> None | e # _ \<Rightarrow> Some e))"

text \<open>The key that a pair of extracted identifiers stands for, if both were found.\<close>

definition key_of_pair :: "string option \<times> string option \<Rightarrow> string option" where
  "key_of_pair vp =
     (if both_found vp then Some (py_format (fst vp) @ '':'' @ py_format (snd vp)) else None)"

text \<open>Records for the examples of the specification.\<close>

definition named :: "string \<Rightarrow> string \<Rightarrow> dev_info" where
  "named instance_id friendly_name =
     \<lparr>DeviceDescription = None, FriendlyName = Some friendly_name,
      InstanceId = Some instance_id, HardwareId = HwList []\<rparr>"

definition mouse_x :: dev_info where
  "mouse_x =
     named (''USB'' @ [CHR 0x5C] @ ''VID_1234&PID_ABCD'' @ [CHR 0x5C] @ ''0'') ''Mouse X''"

definition with_hardware_ids :: "string option \<Rightarrow> string list \<Rightarrow> dev_info" where
  "with_hardware_ids instance_id hwids =
     \<lparr>DeviceDescription = None, FriendlyName = None,
      InstanceId = instance_id, HardwareId = HwList hwids\<rparr>"

definition mouse_x_entry :: device where
  "mouse_x_entry =
     \<lparr>display_name = ''Mouse X [1234:ABCD]'',
      id' = ''USB'' @ [CHR 0x5C] @ ''VID_1234&PID_ABCD'' @ [CHR 0x5C] @ ''0'',
      hardware_id = HwList [],
      vid_pid_key = Some ''1234:ABCD'',
      full_info = mouse_x\<rparr>"

definition zebra_entry :: device where
  "zebra_entry =
     \<lparr>display_name = ''zebra'', id' = ''a'', hardware_id = HwList [],
      vid_pid_key = None, full_info = named ''a'' ''zebra''\<rparr>"

definition apple_entry :: device where
  "apple_entry =
     \<lparr>display_name = ''Apple'', id' = ''b'', hardware_id = HwList [],
      vid_pid_key = None, full_info = named ''b'' ''Apple''\<rparr>"

section \<open>Loading the store\<close>

text \<open>
  C10. Loading never raises: whatever the file holds and whatever fault the operating
  system reports, \<open>load_device_database\<close> returns a store. The store is empty when the
  file is missing, when its contents are no JSON document and when reading fails in any
  other way; a file that holds a store gives that store.
\<close>

theorem load_device_database_total:
  "(\<exists>db. snd (load_device_database fault file) = Inr db)
   \<and> snd (load_device_database fault Missing) = Inr Map.empty
   \<and> snd (load_device_database fault Damaged) = Inr Map.empty
   \<and> snd (load_device_database (Some e) file) = Inr Map.empty
   \<and> snd (load_device_database None (Stored stored)) = Inr stored"
  by (cases fault; cases "file"; cases e)
     (simp_all add: load_device_database_def path_exists_def open_and_json_load_def
        split: py_exn.splits)

section \<open>Stripping white space\<close>

text \<open>
  \<open>py_strip\<close> removes a run of white space at each end and nothing else: what is left
  neither starts nor ends with white space. The white space is the twelve code points
  of \<open>str.isspace\<close> below 256.
\<close>

lemma take1_dropWhile: "list_all (\<lambda>c. \<not> P c) (take (Suc 0) (dropWhile P xs))"
  by (induction xs) simp_all

lemma py_strip_decompose:
  "\<exists>pre post. s = pre @ py_strip s @ post \<and> list_all py_isspace pre \<and> list_all py_isspace post"
proof -
  let ?t = "dropWhile py_isspace s"
  have 1: "s = takeWhile py_isspace s @ ?t" by simp
  have 2: "?t = py_strip s @ rev (takeWhile py_isspace (rev ?t))"
    unfolding py_strip_def by (metis rev_append rev_rev_ident takeWhile_dropWhile_id)
  have a: "list_all py_isspace (takeWhile py_isspace s)"
    by (simp add: list_all_iff) (meson set_takeWhileD)
  have b: "list_all py_isspace (rev (takeWhile py_isspace (rev ?t)))"
    by (simp add: list_all_iff) (meson set_takeWhileD)
  from 1 2 have "s = takeWhile py_isspace s @ py_strip s @ rev (takeWhile py_isspace (rev ?t))"
    by simp
  with a b show ?thesis by blast
qed

lemma py_strip_last: "list_all (\<lambda>c. \<not> py_isspace c) (take (Suc 0) (rev (py_strip s)))"
  by (simp add: py_strip_def take1_dropWhile)

lemma py_strip_first: "list_all (\<lambda>c. \<not> py_isspace c) (take (Suc 0) (py_strip s))"
proof (cases "dropWhile py_isspace s")
  case Nil
  show ?thesis unfolding py_strip_def Nil by simp
next
  case (Cons c cs)
  have c: "\<not> py_isspace c"
    using take1_dropWhile [of py_isspace s] Cons by simp
  have "dropWhile py_isspace (rev cs @ [c]) = dropWhile py_isspace (rev cs) @ [c]
        \<or> dropWhile py_isspace (rev cs @ [c]) = [c]"
    using c by (simp add: dropWhile_append)
  then show ?thesis using Cons c by (auto simp: py_strip_def)
qed

lemma py_isspace_table:
  "filter py_isspace (map char_of [0::nat ..< 256]) =
     map char_of [9::nat, 10, 11, 12, 13, 28, 29, 30, 31, 32, 133, 160]"
  by code_simp

lemma py_strip_padded:
  "py_strip (CHR 0xA0 # ''  Pad x'' @ [CHR 0x09, CHR 0x85, CHR 0x1C]) = ''Pad x''"
  "py_strip [CHR 0xA0, CHR 0x20, CHR 0x0A] = []"
  by code_simp+

section \<open>Editing the store\<close>

lemma device_db_save_custom_name:
  "device_db (snd (save_custom_name env new_name device_key self)) =
     (case new_name of
        None \<Rightarrow> (device_db self)(device_key := None)
      | Some n \<Rightarrow> if n = [] then (device_db self)(device_key := None)
                  else (device_db self)(device_key \<mapsto> n))"
  by (auto simp: save_custom_name_def truthy_def Let_def domIff split: option.splits prod.splits)

lemma fst_save_custom_name: "fst (save_custom_name env new_name device_key self) = Inr ()"
  by (simp add: save_custom_name_def Let_def split: prod.splits)

lemma no_empty_values_step:
  "no_empty_values (device_db self) \<Longrightarrow>
   no_empty_values (device_db (snd (save_custom_name env new_name device_key self)))"
  by (auto simp: device_db_save_custom_name no_empty_values_def split: option.splits)

lemma no_empty_values_run:
  "no_empty_values (device_db self) \<Longrightarrow> no_empty_values (device_db (run_edits ops self))"
  by (induction ops arbitrary: self) (auto simp: no_empty_values_step)

text \<open>
  C1, as stated, fails. With an empty store and a write that fails when the file is
  opened, saving the name \<open>My Mouse\<close> for the key \<open>1234:ABCD\<close> leaves the name in the
  store in memory, where the key had no name before the call, and the caller gets the
  ordinary return value, not an error.
\<close>

theorem save_custom_name_no_rollback_counterexample:
  "device_db (snd (save_custom_name (OpenFails OSError) (Some ''My Mouse'') ''1234:ABCD'' app0))
      ''1234:ABCD'' = Some ''My Mouse''
   \<and> device_db app0 ''1234:ABCD'' = None
   \<and> fst (save_custom_name (OpenFails OSError) (Some ''My Mouse'') ''1234:ABCD'' app0) = Inr ()"
  by (simp add: device_db_save_custom_name fst_save_custom_name app0_def)

text \<open>
  C1, amended. When the write fails, the call still returns normally, the store in
  memory is the one a successful write would have left (the update is kept, not rolled
  back), and, whenever there was something to write, the failure is printed to the
  console by \<open>save_device_database\<close>.
\<close>

theorem save_custom_name_failed_write:
  "env \<noteq> WriteOk \<longrightarrow>
     fst (save_custom_name env new_name device_key self) = Inr ()
     \<and> device_db (snd (save_custom_name env new_name device_key self)) =
         device_db (snd (save_custom_name WriteOk new_name device_key self))
     \<and> (truthy new_name \<or> device_key \<in> dom (device_db self) \<longrightarrow>
          (\<exists>e. console (snd (save_custom_name env new_name device_key self)) =
                 console self @ [ErrorSaving e]))"
  by (cases env)
     (auto simp: device_db_save_custom_name fst_save_custom_name save_custom_name_def
        save_device_database_def Let_def split: prod.splits)

theorem save_custom_name_failed_write_witness:
  "DumpFails OSError \<noteq> WriteOk
   \<and> device_db (snd (save_custom_name (DumpFails OSError) (Some ''My Mouse'') ''1234:ABCD'' app0)) =
        device_db (snd (save_custom_name WriteOk (Some ''My Mouse'') ''1234:ABCD'' app0))
   \<and> truthy (Some ''My Mouse'')
   \<and> (\<exists>e. console (snd (save_custom_name (DumpFails OSError) (Some ''My Mouse'') ''1234:ABCD'' app0)) =
                 console app0 @ [ErrorSaving e])"
  using save_custom_name_failed_write [of "DumpFails OSError" "Some ''My Mouse''" "''1234:ABCD''" app0]
  by (simp add: truthy_def)

text \<open>
  C8. A name that is not empty is stored under the key as it is; the dialog passes the
  stripped text of its entry field, so a text that is not empty after stripping is
  stored stripped. An empty or absent name removes the key, and when the key has no
  name the call changes nothing and is no error. Hence a run of edits that starts from
  a store without empty names ends in a store without empty names. Stripping takes
  white space, and only white space, from both ends of the text, where white space is
  the code points 9 to 13, 28 to 32, 133 and 160: a text padded with a no-break space,
  blanks, a tab, a next-line character and a file separator is stored without them, and
  a text of a no-break space, a blank and a line feed removes the key.
\<close>

theorem save_custom_name_store:
  "(name \<noteq> [] \<longrightarrow>
      device_db (snd (save_custom_name env (Some name) device_key self)) =
        (device_db self)(device_key \<mapsto> name))
   \<and> device_db (snd (save_custom_name env (Some []) device_key self)) =
        (device_db self)(device_key := None)
   \<and> device_db (snd (save_custom_name env None device_key self)) =
        (device_db self)(device_key := None)
   \<and> (device_key \<notin> dom (device_db self) \<longrightarrow>
        save_custom_name env (Some []) device_key self = (Inr (), self)
        \<and> save_custom_name env None device_key self = (Inr (), self))
   \<and> (py_strip entry_text \<noteq> [] \<longrightarrow>
        device_db (snd (save_and_close env entry_text device_key self)) =
          (device_db self)(device_key \<mapsto> py_strip entry_text))
   \<and> (py_strip entry_text = [] \<longrightarrow>
        device_db (snd (save_and_close env entry_text device_key self)) =
          (device_db self)(device_key := None))
   \<and> (no_empty_values (device_db self) \<longrightarrow> no_empty_values (device_db (run_edits ops self)))
   \<and> (device_db (snd (save_and_close env
           (CHR 0xA0 # ''  Pad x'' @ [CHR 0x09, CHR 0x85, CHR 0x1C]) device_key self)) device_key
          = Some ''Pad x''
        \<and> device_db (snd (save_and_close env [CHR 0xA0, CHR 0x20, CHR 0x0A] device_key self))
            device_key = None
        \<and> (\<exists>pre post. entry_text = pre @ py_strip entry_text @ post
              \<and> list_all py_isspace pre \<and> list_all py_isspace post)
        \<and> list_all (\<lambda>c. \<not> py_isspace c) (take 1 (py_strip entry_text))
        \<and> list_all (\<lambda>c. \<not> py_isspace c) (take 1 (rev (py_strip entry_text)))
        \<and> filter py_isspace (map char_of [0::nat ..< 256]) =
            map char_of [9::nat, 10, 11, 12, 13, 28, 29, 30, 31, 32, 133, 160])"
  (is "?c1 \<and> ?c2 \<and> ?c3 \<and> ?c4 \<and> ?c5 \<and> ?c6 \<and> ?c7 \<and> ?strip")
proof -
  have edits: "?c1 \<and> ?c2 \<and> ?c3 \<and> ?c4 \<and> ?c5 \<and> ?c6 \<and> ?c7"
    by (simp add: device_db_save_custom_name save_and_close_def no_empty_values_run)
       (simp add: save_custom_name_def truthy_def)
  have padded: "device_db (snd (save_and_close env
           (CHR 0xA0 # ''  Pad x'' @ [CHR 0x09, CHR 0x85, CHR 0x1C]) device_key self)) device_key
          = Some ''Pad x''"
    "device_db (snd (save_and_close env [CHR 0xA0, CHR 0x20, CHR 0x0A] device_key self))
            device_key = None"
    by (simp_all only: save_and_close_def Let_def py_strip_padded)
       (simp_all add: device_db_save_custom_name)
  have ends: "list_all (\<lambda>c. \<not> py_isspace c) (take 1 (py_strip entry_text))"
    "list_all (\<lambda>c. \<not> py_isspace c) (take 1 (rev (py_strip entry_text)))"
    using py_strip_first [of entry_text] py_strip_last [of entry_text] by simp_all
  have ?strip
    using padded ends py_strip_decompose [of entry_text] py_isspace_table by blast
  with edits show ?thesis by blast
qed

theorem save_custom_name_store_witness:
  "''My Mouse'' \<noteq> []
   \<and> device_db (snd (save_custom_name WriteOk (Some ''My Mouse'') ''1234:ABCD'' app0)) =
        (device_db app0)(''1234:ABCD'' \<mapsto> ''My Mouse'')
   \<and> ''1234:ABCD'' \<notin> dom (device_db app0)
   \<and> save_custom_name WriteOk None ''1234:ABCD'' app0 = (Inr (), app0)
   \<and> py_strip ''  Pad  '' \<noteq> []
   \<and> device_db (snd (save_and_close WriteOk ''  Pad  '' ''1234:ABCD'' app0)) =
        (device_db app0)(''1234:ABCD'' \<mapsto> ''Pad'')
   \<and> py_strip ''   '' = []
   \<and> device_db (snd (save_and_close WriteOk ''   '' ''1234:ABCD'' app0)) =
        (device_db app0)(''1234:ABCD'' := None)
   \<and> no_empty_values (device_db app0)
   \<and> no_empty_values (device_db (run_edits
         [(WriteOk, Some ''My Mouse'', ''1234:ABCD''), (OpenFails OSError, Some [], ''1234:ABCD'')]
         app0))"
proof -
  have strip: "py_strip ''  Pad  '' = ''Pad''" "py_strip ''   '' = []"
    by (simp_all add: py_strip_def py_isspace_def)
  have inv: "no_empty_values (device_db app0)"
    by (simp add: no_empty_values_def app0_def)
  have fresh: "''1234:ABCD'' \<notin> dom (device_db app0)"
    by (simp add: app0_def)
  show ?thesis
    using strip inv fresh
      save_custom_name_store [where name = "''My Mouse''" and env = WriteOk
        and device_key = "''1234:ABCD''" and self = app0 and entry_text = "''  Pad  ''"
        and ops = "[(WriteOk, Some ''My Mouse'', ''1234:ABCD''),
                    (OpenFails OSError, Some [], ''1234:ABCD'')]"]
      save_custom_name_store [where name = "''My Mouse''" and env = WriteOk
        and device_key = "''1234:ABCD''" and self = app0 and entry_text = "''   ''"
        and ops = "[]"]
    by simp
qed

section \<open>Extracting the identifiers\<close>

lemma match_at_Nil: "\<not> match_at tag []"
  by (simp add: match_at_def)

lemma re_search_None: "re_search tag s = None \<longleftrightarrow> (\<forall>i. \<not> match_at tag (drop i s))"
proof (induction s)
  case Nil
  then show ?case by (simp add: match_at_Nil)
next
  case (Cons c cs)
  have "(\<forall>i. \<not> match_at tag (drop i (c # cs))) \<longleftrightarrow>
        \<not> match_at tag (c # cs) \<and> (\<forall>i. \<not> match_at tag (drop i cs))"
  proof
    assume a: "\<forall>i. \<not> match_at tag (drop i (c # cs))"
    have "\<not> match_at tag (c # cs)" using a [rule_format, of 0] by simp
    moreover have "\<not> match_at tag (drop i cs)" for i using a [rule_format, of "Suc i"] by simp
    ultimately show "\<not> match_at tag (c # cs) \<and> (\<forall>i. \<not> match_at tag (drop i cs))" by blast
  next
    assume a: "\<not> match_at tag (c # cs) \<and> (\<forall>i. \<not> match_at tag (drop i cs))"
    show "\<forall>i. \<not> match_at tag (drop i (c # cs))"
    proof
      fix i show "\<not> match_at tag (drop i (c # cs))" using a by (cases i) simp_all
    qed
  qed
  with Cons show ?case by simp
qed

lemma re_search_length: "re_search tag s = Some g \<Longrightarrow> length g = 4 \<and> list_all is_hex g"
  by (induction s) (auto simp: match_at_def split: if_splits)

lemma re_search_first: "re_search tag s = Some g \<longleftrightarrow> first_match tag s g"
proof (induction s)
  case Nil
  then show ?case by (simp add: first_match_def match_at_Nil)
next
  case (Cons c cs)
  show ?case
  proof (cases "match_at tag (c # cs)")
    case True
    have "first_match tag (c # cs) g \<longleftrightarrow> g = take 4 (drop 4 (c # cs))"
    proof
      assume "first_match tag (c # cs) g"
      then obtain i where i: "g = take 4 (drop 4 (drop i (c # cs)))"
        "\<forall>j<i. \<not> match_at tag (drop j (c # cs))" unfolding first_match_def by blast
      have "i = 0"
      proof (rule ccontr)
        assume "i \<noteq> 0"
        then have "0 < i" by simp
        with i(2) have "\<not> match_at tag (drop 0 (c # cs))" by blast
        with True show False by simp
      qed
      with i(1) show "g = take 4 (drop 4 (c # cs))" by simp
    next
      assume g: "g = take 4 (drop 4 (c # cs))"
      show "first_match tag (c # cs) g" unfolding first_match_def
        by (rule exI[of _ 0]) (use True g in simp)
    qed
    with True show ?thesis by auto
  next
    case False
    have "first_match tag (c # cs) g \<longleftrightarrow> first_match tag cs g"
    proof
      assume "first_match tag (c # cs) g"
      then obtain i where i: "match_at tag (drop i (c # cs))"
        "g = take 4 (drop 4 (drop i (c # cs)))"
        "\<forall>j<i. \<not> match_at tag (drop j (c # cs))" unfolding first_match_def by blast
      from i(1) False obtain k where k: "i = Suc k" by (cases i) auto
      have "\<forall>j<k. \<not> match_at tag (drop j cs)"
      proof (intro allI impI)
        fix j assume "j < k"
        then have "Suc j < i" using k by simp
        with i(3) have "\<not> match_at tag (drop (Suc j) (c # cs))" by blast
        then show "\<not> match_at tag (drop j cs)" by simp
      qed
      with i(1,2) k show "first_match tag cs g" unfolding first_match_def
        by (intro exI[of _ k]) simp
    next
      assume "first_match tag cs g"
      then obtain i where i: "match_at tag (drop i cs)" "g = take 4 (drop 4 (drop i cs))"
        "\<forall>j<i. \<not> match_at tag (drop j cs)" unfolding first_match_def by blast
      have "\<forall>j<Suc i. \<not> match_at tag (drop j (c # cs))"
      proof (intro allI impI)
        fix j assume j: "j < Suc i"
        show "\<not> match_at tag (drop j (c # cs))"
        proof (cases j)
          case 0
          with False show ?thesis by simp
        next
          case (Suc j')
          with j i(3) show ?thesis by simp
        qed
      qed
      with i(1,2) show "first_match tag (c # cs) g" unfolding first_match_def
        by (intro exI[of _ "Suc i"]) simp
    qed
    with False Cons show ?thesis by simp
  qed
qed

text \<open>
  C3, as stated, fails. In \<open>VID_12345&PID_ABCDE\<close> each tag is followed by five
  hexadecimal digits, so the string holds no tag with exactly four, and the extraction
  still returns the pair \<open>1234\<close>, \<open>ABCD\<close>. And a string that contains
  \<open>VID_ab12&PID_cd34\<close> after an earlier \<open>VID_0000\<close> gives \<open>0000\<close>, not \<open>AB12\<close>.
\<close>

theorem extract_vid_pid_counterexample:
  "extract_vid_pid ''VID_12345&PID_ABCDE'' = (Some ''1234'', Some ''ABCD'')
   \<and> \<not> contains_exact ''VID_'' ''VID_12345&PID_ABCDE''
   \<and> \<not> contains_exact ''PID_'' ''VID_12345&PID_ABCDE''
   \<and> extract_vid_pid ''VID_0000 VID_ab12&PID_cd34'' = (Some ''0000'', Some ''CD34'')"
  by code_simp

lemma py_upper_length: "length (py_upper g) = length g"
  by (simp add: py_upper_def)

text \<open>
  C3, amended. The extraction returns a pair exactly when some position of the string
  matches \<open>VID_\<close> and four hexadecimal digits and some position matches \<open>PID_\<close> and
  four hexadecimal digits, whatever follows the fourth digit. The pair then holds the
  four digits of the leftmost match of each tag, in upper case.
\<close>

theorem extract_vid_pid_first_match:
  "(extract_vid_pid s = (Some v, Some p)) =
     (\<exists>gv gp. first_match ''VID_'' s gv \<and> first_match ''PID_'' s gp
               \<and> v = py_upper gv \<and> p = py_upper gp)
   \<and> ((\<exists>v p. extract_vid_pid s = (Some v, Some p)) =
        ((\<exists>i. match_at ''VID_'' (drop i s)) \<and> (\<exists>j. match_at ''PID_'' (drop j s))))
   \<and> (extract_vid_pid s = (Some v, Some p) \<longrightarrow> length v = 4 \<and> length p = 4)"
proof (intro conjI)
  show "(extract_vid_pid s = (Some v, Some p)) =
     (\<exists>gv gp. first_match ''VID_'' s gv \<and> first_match ''PID_'' s gp
               \<and> v = py_upper gv \<and> p = py_upper gp)"
    by (auto simp: extract_vid_pid_def Let_def re_search_first [symmetric] split: option.splits)
  show "(\<exists>v p. extract_vid_pid s = (Some v, Some p)) =
        ((\<exists>i. match_at ''VID_'' (drop i s)) \<and> (\<exists>j. match_at ''PID_'' (drop j s)))"
    using re_search_None [of "''VID_''" s] re_search_None [of "''PID_''" s]
    by (auto simp: extract_vid_pid_def Let_def split: option.splits)
  show "extract_vid_pid s = (Some v, Some p) \<longrightarrow> length v = 4 \<and> length p = 4"
    by (auto simp: extract_vid_pid_def Let_def py_upper_length split: option.splits
        dest: re_search_length)
qed

theorem extract_vid_pid_first_match_witness:
  "extract_vid_pid ''usb vid_ab12&Pid_cd34 x'' = (Some ''AB12'', Some ''CD34'')
   \<and> (\<exists>gv gp. first_match ''VID_'' ''usb vid_ab12&Pid_cd34 x'' gv
        \<and> first_match ''PID_'' ''usb vid_ab12&Pid_cd34 x'' gp
        \<and> ''AB12'' = py_upper gv \<and> ''CD34'' = py_upper gp)
   \<and> length ''AB12'' = 4"
proof -
  have e: "extract_vid_pid ''usb vid_ab12&Pid_cd34 x'' = (Some ''AB12'', Some ''CD34'')"
    by code_simp
  show ?thesis
    using e extract_vid_pid_first_match [of "''usb vid_ab12&Pid_cd34 x''" "''AB12''" "''CD34''"]
    by simp
qed

section \<open>Classifying the status\<close>

lemma char_eq_code: "a = b \<longleftrightarrow> (of_char a :: nat) = of_char b"
  by simp

lemma py_upper_char_O: "py_upper_char a = CHR ''O'' \<longleftrightarrow> a = CHR ''O'' \<or> a = CHR ''o''"
proof (cases "97 \<le> (of_char a :: nat) \<and> (of_char a :: nat) \<le> 122")
  case True
  then have "py_upper_char a = CHR ''O'' \<longleftrightarrow> (of_char a :: nat) = 111"
    by (auto simp: py_upper_char_def Let_def char_of_eq_iff take_bit_eq_mod)
  moreover have "a = CHR ''o'' \<longleftrightarrow> (of_char a :: nat) = 111"
    by (subst char_eq_code) simp
  moreover have "a = CHR ''O'' \<longleftrightarrow> (of_char a :: nat) = 79"
    by (subst char_eq_code) simp
  ultimately show ?thesis using True by auto
next
  case False
  then show ?thesis by (auto simp: py_upper_char_def Let_def)
qed

lemma py_upper_char_K: "py_upper_char a = CHR ''K'' \<longleftrightarrow> a = CHR ''K'' \<or> a = CHR ''k''"
proof (cases "97 \<le> (of_char a :: nat) \<and> (of_char a :: nat) \<le> 122")
  case True
  then have "py_upper_char a = CHR ''K'' \<longleftrightarrow> (of_char a :: nat) = 107"
    by (auto simp: py_upper_char_def Let_def char_of_eq_iff take_bit_eq_mod)
  moreover have "a = CHR ''k'' \<longleftrightarrow> (of_char a :: nat) = 107"
    by (subst char_eq_code) simp
  moreover have "a = CHR ''K'' \<longleftrightarrow> (of_char a :: nat) = 75"
    by (subst char_eq_code) simp
  ultimately show ?thesis using True by auto
next
  case False
  then show ?thesis by (auto simp: py_upper_char_def Let_def)
qed

text \<open>Searching \<open>OK\<close> in the upper-cased text is searching it without regard to case.\<close>

lemma py_in_OK_upper: "py_in ''OK'' (py_upper s) = contains_OK s"
proof (induction s rule: contains_OK.induct)
  case (1 a b cs)
  then show ?case
    by (simp add: py_upper_def py_upper_char_O py_upper_char_K)
next
  case (2 a)
  then show ?case by (simp add: py_upper_def)
next
  case 3
  then show ?case by (simp add: py_upper_def)
qed

lemma py_strip_Nil: "py_strip [] = []"
  by (simp add: py_strip_def)

lemma py_strip_None: "py_strip ''None'' = ''None''"
  by (simp add: py_strip_def py_isspace_def)

lemma present_flag_False: "(p = Some (JBool False)) = (present_flag p = Some False)"
  by (auto simp: present_flag_def split: option.splits jscalar.splits)

lemma code_trimmed_is:
  "v \<noteq> [] \<Longrightarrow> v \<noteq> ''None'' \<Longrightarrow> (py_strip (get_str e) = v) = trimmed_is (field_text e) v"
  by (auto simp: get_str_def field_text_def trimmed_is_def py_strip_Nil py_strip_None py_str_def
      split: option.splits jscalar.splits)

lemma status_text_OK:
  "py_in ''OK'' (py_upper (py_strip (get_str t))) =
     (case field_text t of None \<Rightarrow> False | Some x \<Rightarrow> contains_OK (py_strip x))"
  by (auto simp: py_in_OK_upper get_str_def field_text_def py_strip_Nil py_strip_None py_str_def
      split: option.splits jscalar.splits)

text \<open>
  C2. For every presence flag, error code and status text, the status the code computes
  is the one the ordered rules of the specification give: presence explicitly false gives
  disabled; else the trimmed error code \<open>22\<close> gives disabled; else the trimmed error code
  \<open>0\<close> gives enabled; else a trimmed status text that contains \<open>OK\<close> in any case gives
  enabled; else unknown. A presence flag that is false gives disabled whatever the other
  two fields hold, and the four examples of the specification hold. Trimming takes white
  space, and only white space, from both ends, where white space is the code points 9
  to 13, 28 to 32, 133 and 160: the code \<open>22\<close> padded with a blank, a no-break space and
  a tab gives disabled, the code \<open>0\<close> padded with a next-line character and a blank gives
  enabled, and \<open>2 2\<close> is no code. Numeric codes are read in decimal, an earlier rule
  wins over a later one, and \<open>O K\<close> does not contain \<open>OK\<close>.
\<close>

theorem status_of_props_classifyStatus:
  "status_of_props \<lparr>Present = p, ConfigManagerErrorCode = e, Status = t\<rparr> =
     classifyStatus (present_flag p) (field_text e) (field_text t)
   \<and> classifyStatus (Some False) errorCode statusText = Disabled
   \<and> status_of_props \<lparr>Present = Some (JBool False), ConfigManagerErrorCode = e, Status = t\<rparr>
       = Disabled
   \<and> status_of_props \<lparr>Present = None, ConfigManagerErrorCode = Some (JStr ''22''), Status = t\<rparr>
       = Disabled
   \<and> status_of_props \<lparr>Present = None, ConfigManagerErrorCode = Some (JStr ''0''), Status = t\<rparr>
       = Enabled
   \<and> status_of_props \<lparr>Present = None, ConfigManagerErrorCode = None, Status = Some (JStr ''OK'')\<rparr>
       = Enabled
   \<and> status_of_props \<lparr>Present = None, ConfigManagerErrorCode = None, Status = None\<rparr> = Unknown
   \<and> get_device_status (\<lambda>out. StatusObject \<lparr>Present = p, ConfigManagerErrorCode = e, Status = t\<rparr>)
        (c # out, err, 0) = classifyStatus (present_flag p) (field_text e) (field_text t)
   \<and> (status_of_props \<lparr>Present = None,
          ConfigManagerErrorCode = Some (JStr ('' 22'' @ [CHR 0xA0, CHR 0x09])),
          Status = None\<rparr> = Disabled
        \<and> status_of_props \<lparr>Present = None,
            ConfigManagerErrorCode = Some (JStr (CHR 0x85 # ''0 '')),
            Status = None\<rparr> = Enabled
        \<and> status_of_props \<lparr>Present = None, ConfigManagerErrorCode = Some (JStr ''2 2''),
            Status = None\<rparr> = Unknown
        \<and> status_of_props \<lparr>Present = None, ConfigManagerErrorCode = Some (JInt 22),
            Status = Some (JStr ''OK'')\<rparr> = Disabled
        \<and> status_of_props \<lparr>Present = Some (JBool True), ConfigManagerErrorCode = Some (JInt 0),
            Status = Some (JStr ''Error'')\<rparr> = Enabled
        \<and> status_of_props \<lparr>Present = None, ConfigManagerErrorCode = Some (JInt 10),
            Status = Some (JStr ''Error'')\<rparr> = Unknown
        \<and> status_of_props \<lparr>Present = None, ConfigManagerErrorCode = Some (JStr ''CM_PROB_NONE''),
            Status = Some (JStr '' Ok '')\<rparr> = Enabled
        \<and> status_of_props \<lparr>Present = None, ConfigManagerErrorCode = None,
            Status = Some (JStr ''O K'')\<rparr> = Unknown
        \<and> (\<exists>pre post. s = pre @ py_strip s @ post
              \<and> list_all py_isspace pre \<and> list_all py_isspace post)
        \<and> list_all (\<lambda>c. \<not> py_isspace c) (take 1 (py_strip s))
        \<and> list_all (\<lambda>c. \<not> py_isspace c) (take 1 (rev (py_strip s)))
        \<and> filter py_isspace (map char_of [0::nat ..< 256]) =
            map char_of [9::nat, 10, 11, 12, 13, 28, 29, 30, 31, 32, 133, 160])"
  (is "?c1 \<and> ?c2 \<and> ?c3 \<and> ?c4 \<and> ?c5 \<and> ?c6 \<and> ?c7 \<and> ?c8 \<and> ?trim")
proof -
  have main: "status_of_props \<lparr>Present = p, ConfigManagerErrorCode = e, Status = t\<rparr> =
     classifyStatus (present_flag p) (field_text e) (field_text t)" for p e t
    using code_trimmed_is [of "''22''" e] code_trimmed_is [of "''0''" e]
    by (simp add: status_of_props_def classifyStatus_def Let_def present_flag_False
        status_text_OK)
  have strip: "py_strip ''22'' = ''22''" "py_strip ''0'' = ''0''" "py_strip ''OK'' = ''OK''"
    by (simp_all add: py_strip_def py_isspace_def)
  have rules: "?c1 \<and> ?c2 \<and> ?c3 \<and> ?c4 \<and> ?c5 \<and> ?c6 \<and> ?c7 \<and> ?c8"
    by (simp add: main strip classifyStatus_def get_device_status_def present_flag_def
        field_text_def trimmed_is_def py_str_def)
  have padded: "status_of_props \<lparr>Present = None,
          ConfigManagerErrorCode = Some (JStr ('' 22'' @ [CHR 0xA0, CHR 0x09])),
          Status = None\<rparr> = Disabled"
    "status_of_props \<lparr>Present = None,
            ConfigManagerErrorCode = Some (JStr (CHR 0x85 # ''0 '')),
            Status = None\<rparr> = Enabled"
    "status_of_props \<lparr>Present = None, ConfigManagerErrorCode = Some (JStr ''2 2''),
            Status = None\<rparr> = Unknown"
    by code_simp+
  have numeric: "status_of_props \<lparr>Present = None, ConfigManagerErrorCode = Some (JInt 22),
            Status = Some (JStr ''OK'')\<rparr> = Disabled"
    "status_of_props \<lparr>Present = Some (JBool True), ConfigManagerErrorCode = Some (JInt 0),
            Status = Some (JStr ''Error'')\<rparr> = Enabled"
    "status_of_props \<lparr>Present = None, ConfigManagerErrorCode = Some (JInt 10),
            Status = Some (JStr ''Error'')\<rparr> = Unknown"
    by code_simp+
  have status_words: "status_of_props \<lparr>Present = None, ConfigManagerErrorCode = Some (JStr ''CM_PROB_NONE''),
            Status = Some (JStr '' Ok '')\<rparr> = Enabled"
    "status_of_props \<lparr>Present = None, ConfigManagerErrorCode = None,
            Status = Some (JStr ''O K'')\<rparr> = Unknown"
    by code_simp+
  have ends: "list_all (\<lambda>c. \<not> py_isspace c) (take 1 (py_strip s))"
    "list_all (\<lambda>c. \<not> py_isspace c) (take 1 (rev (py_strip s)))"
    using py_strip_first [of s] py_strip_last [of s] by simp_all
  have ?trim
    using padded numeric status_words ends py_strip_decompose [of s] py_isspace_table by blast
  with rules show ?thesis by blast
qed

section \<open>Deriving the device key\<close>

lemma extract_vid_pid_nonempty:
  "extract_vid_pid s = (v, p) \<Longrightarrow> v \<noteq> Some [] \<and> p \<noteq> Some []"
  by (auto simp: extract_vid_pid_def Let_def py_upper_def split: option.splits
      dest!: re_search_length)

lemma both_found_extract:
  "both_found (extract_vid_pid s) \<longleftrightarrow> (\<exists>v p. extract_vid_pid s = (Some v, Some p))"
  using extract_vid_pid_nonempty [of s "fst (extract_vid_pid s)" "snd (extract_vid_pid s)"]
  by (cases "extract_vid_pid s") (auto simp: both_found_def truthy_def split: option.splits)

lemma key_of_string_pair: "key_of_string s = key_of_pair (extract_vid_pid s)"
  using both_found_extract [of s]
  by (cases "extract_vid_pid s")
     (auto simp: key_of_string_def key_of_pair_def py_format_def split: option.splits)

text \<open>
  The loop over the hardware identifiers ends with the key of the first entry that has
  one; when no entry has one, the identifiers of the last entry are left and give no key.
\<close>

lemma scan_hardware_ids_key:
  "key_of_pair (scan_hardware_ids hs vp) = (if hs = [] then key_of_pair vp else first_key hs)"
proof (induction hs arbitrary: vp)
  case Nil
  then show ?case by simp
next
  case (Cons h rest)
  show ?case
  proof (cases "both_found (extract_vid_pid h)")
    case True
    then show ?thesis
      by (auto simp: key_of_string_pair key_of_pair_def Let_def)
  next
    case False
    then have none: "key_of_string h = None"
      by (simp add: key_of_string_pair key_of_pair_def)
    show ?thesis
      using False none Cons [of "extract_vid_pid h"]
      by (auto simp: Let_def key_of_string_pair)
  qed
qed

lemma entries_of_as_list: "entries_of (as_list h) = entries_of h"
  by (cases h) (simp_all add: entries_of_def as_list_def)

lemma device_key_of_derived_key: "device_key_of dev = derived_key dev"
proof -
  have key: "device_key_of dev = key_of_pair (find_vid_pid dev)"
    by (simp add: device_key_of_def key_of_pair_def Let_def)
  show ?thesis
  proof (cases "truthy (InstanceId dev)")
    case True
    then obtain i where i: "InstanceId dev = Some i" "i \<noteq> []"
      by (auto simp: truthy_def split: option.splits)
    show ?thesis
    proof (cases "both_found (extract_vid_pid i)")
      case True
      then show ?thesis
        using i key
        by (auto simp: find_vid_pid_def Let_def truthy_def py_format_def derived_key_def
            key_of_string_pair key_of_pair_def)
    next
      case False
      then have none: "key_of_string i = None"
        by (simp add: key_of_string_pair key_of_pair_def)
      show ?thesis
        using i key False none
        by (auto simp: find_vid_pid_def Let_def truthy_def py_format_def derived_key_def
            scan_hardware_ids_key entries_of_as_list key_of_string_pair)
    qed
  next
    case False
    have empty: "key_of_string [] = None"
      by (simp add: key_of_string_def extract_vid_pid_def)
    have nf: "\<not> both_found (None, None)" "key_of_pair (None, None) = None"
      by (simp_all add: both_found_def truthy_def key_of_pair_def)
    from False have "InstanceId dev = None \<or> InstanceId dev = Some []"
      by (auto simp: truthy_def split: option.splits)
    then show ?thesis
      using key False empty nf
      by (auto simp: find_vid_pid_def Let_def derived_key_def
          scan_hardware_ids_key entries_of_as_list)
  qed
qed

text \<open>
  C4. For every raw record the device key is the key of the instance identifier when
  that holds both a vendor and a product identifier; otherwise it is the key of the first
  hardware identifier, in listed order, that holds both; otherwise there is none. The
  entry built from the record carries this key. Three records show the order: a key in
  the instance identifier hides the hardware identifiers, the search stops at the first
  hardware identifier with both parts, and parts found in different identifiers are
  never combined.
\<close>

theorem device_key_of_derived:
  "device_key_of dev = derived_key dev
   \<and> map vid_pid_key (appended device_database dev) =
       (if truthy (InstanceId dev) then [derived_key dev] else [])
   \<and> device_key_of (with_hardware_ids (Some ''USB/VID_1234&PID_abcd/0'')
        [''USB/VID_1111&PID_2222'']) = Some ''1234:ABCD''
   \<and> device_key_of (with_hardware_ids (Some ''HID/VID_1234/0'')
        [''HID/PID_0001'', ''USB/VID_1111&PID_2222'', ''USB/VID_3333&PID_4444''])
       = Some ''1111:2222''
   \<and> device_key_of (with_hardware_ids (Some ''HID/VID_1234/0'') [''HID/PID_0001'']) = None"
proof -
  have ex1: "device_key_of (with_hardware_ids (Some ''USB/VID_1234&PID_abcd/0'')
        [''USB/VID_1111&PID_2222'']) = Some ''1234:ABCD''"
    by code_simp
  have ex2: "device_key_of (with_hardware_ids (Some ''HID/VID_1234/0'')
        [''HID/PID_0001'', ''USB/VID_1111&PID_2222'', ''USB/VID_3333&PID_4444''])
       = Some ''1111:2222''"
    by code_simp
  have ex3: "device_key_of (with_hardware_ids (Some ''HID/VID_1234/0'') [''HID/PID_0001'']) = None"
    by code_simp
  show ?thesis
    using ex1 ex2 ex3 by (simp add: device_key_of_derived_key appended_def)
qed

section \<open>Building the device list\<close>

lemma collect_devices_acc:
  "collect_devices db ds seen acc = acc @ collect_devices db ds seen []"
proof (induction ds arbitrary: seen acc)
  case Nil
  then show ?case by simp
next
  case (Cons d rest)
  show ?case
    using Cons [of seen acc] Cons [of "insert (InstanceId d) seen" "acc @ appended db d"]
      Cons [of "insert (InstanceId d) seen" "appended db d"]
    by simp
qed

lemma collect_devices_Cons:
  "collect_devices db (d # rest) seen [] =
     (if InstanceId d \<in> seen then collect_devices db rest seen []
      else appended db d @ collect_devices db rest (insert (InstanceId d) seen) [])"
  using collect_devices_acc [of db rest "insert (InstanceId d) seen" "appended db d"]
  by simp

lemma appended_entry:
  "e \<in> set (appended db d) \<Longrightarrow>
     InstanceId d = Some (id' e) \<and> id' e \<noteq> [] \<and> full_info e = d"
  by (auto simp: appended_def truthy_def py_format_def split: if_splits option.splits)

lemma collect_devices_entry:
  "e \<in> set (collect_devices db ds seen []) \<Longrightarrow>
     Some (id' e) \<notin> seen \<and> full_info e \<in> set ds \<and> e \<in> set (appended db (full_info e))"
proof (induction ds arbitrary: seen)
  case Nil
  then show ?case by simp
next
  case (Cons d rest)
  show ?case
  proof (cases "InstanceId d \<in> seen")
    case True
    with Cons.prems have "e \<in> set (collect_devices db rest seen [])"
      by (simp add: collect_devices_Cons del: collect_devices.simps)
    from Cons.IH [OF this] show ?thesis by simp
  next
    case False
    with Cons.prems consider "e \<in> set (appended db d)"
      | "e \<in> set (collect_devices db rest (insert (InstanceId d) seen) [])"
      by (auto simp add: collect_devices_Cons simp del: collect_devices.simps)
    then show ?thesis
    proof cases
      case 1
      with False appended_entry [OF 1] show ?thesis by auto
    next
      case 2
      from Cons.IH [OF 2] show ?thesis by auto
    qed
  qed
qed

lemma collect_devices_distinct: "distinct (map id' (collect_devices db ds seen []))"
proof (induction ds arbitrary: seen)
  case Nil
  then show ?case by simp
next
  case (Cons d rest)
  show ?case
  proof (cases "InstanceId d \<in> seen")
    case True
    then show ?thesis using Cons [of seen] by (simp add: collect_devices_Cons del: collect_devices.simps)
  next
    case False
    have one: "distinct (map id' (appended db d))"
      by (simp add: appended_def)
    have apart: "id' a \<noteq> id' b"
      if "a \<in> set (appended db d)"
        "b \<in> set (collect_devices db rest (insert (InstanceId d) seen) [])" for a b
      using appended_entry [OF that(1)] collect_devices_entry [OF that(2)] by auto
    show ?thesis
      using False one apart Cons [of "insert (InstanceId d) seen"]
      by (auto simp add: collect_devices_Cons simp del: collect_devices.simps)
  qed
qed

lemma collect_devices_first:
  "e \<in> set (collect_devices db ds seen []) \<Longrightarrow>
     List.find (\<lambda>r. InstanceId r = Some (id' e)) ds = Some (full_info e)"
proof (induction ds arbitrary: seen)
  case Nil
  then show ?case by simp
next
  case (Cons d rest)
  show ?case
  proof (cases "InstanceId d \<in> seen")
    case True
    with Cons.prems have in_rest: "e \<in> set (collect_devices db rest seen [])"
      by (simp add: collect_devices_Cons del: collect_devices.simps)
    from collect_devices_entry [OF in_rest] True have "InstanceId d \<noteq> Some (id' e)" by auto
    with Cons.IH [OF in_rest] show ?thesis by simp
  next
    case False
    with Cons.prems consider "e \<in> set (appended db d)"
      | "e \<in> set (collect_devices db rest (insert (InstanceId d) seen) [])"
      by (auto simp add: collect_devices_Cons simp del: collect_devices.simps)
    then show ?thesis
    proof cases
      case 1
      with appended_entry [OF 1] show ?thesis by simp
    next
      case 2
      from collect_devices_entry [OF 2] have "InstanceId d \<noteq> Some (id' e)" by auto
      with Cons.IH [OF 2] show ?thesis by simp
    qed
  qed
qed

lemma collect_devices_complete:
  "d \<in> set ds \<Longrightarrow> truthy (InstanceId d) \<Longrightarrow> InstanceId d \<notin> seen \<Longrightarrow>
     \<exists>e\<in>set (collect_devices db ds seen []). Some (id' e) = InstanceId d"
proof (induction ds arbitrary: seen)
  case Nil
  then show ?case by simp
next
  case (Cons x rest)
  show ?case
  proof (cases "InstanceId x = InstanceId d")
    case True
    with Cons.prems have "InstanceId x \<notin> seen" by simp
    moreover have "\<exists>e\<in>set (appended db x). Some (id' e) = InstanceId d"
      using True Cons.prems(2) by (auto simp: appended_def truthy_def py_format_def split: option.splits)
    ultimately show ?thesis by (auto simp add: collect_devices_Cons simp del: collect_devices.simps)
  next
    case False
    with Cons.prems have d: "d \<in> set rest" by auto
    show ?thesis
    proof (cases "InstanceId x \<in> seen")
      case True
      with Cons.IH [OF d Cons.prems(2) Cons.prems(3)] show ?thesis
        by (simp add: collect_devices_Cons del: collect_devices.simps)
    next
      case notin: False
      from False Cons.prems(3) have "InstanceId d \<notin> insert (InstanceId x) seen" by auto
      from Cons.IH [OF d Cons.prems(2) this] notin show ?thesis
        by (auto simp add: collect_devices_Cons simp del: collect_devices.simps)
    qed
  qed
qed

lemma collect_devices_subseq: "subseq (map full_info (collect_devices db ds seen [])) ds"
proof (induction ds arbitrary: seen)
  case Nil
  then show ?case by simp
next
  case (Cons d rest)
  show ?case
  proof (cases "InstanceId d \<in> seen")
    case True
    then show ?thesis using Cons [of seen]
      by (auto simp add: collect_devices_Cons simp del: collect_devices.simps)
  next
    case False
    then show ?thesis using Cons [of "insert (InstanceId d) seen"]
      by (auto simp add: collect_devices_Cons appended_def simp del: collect_devices.simps)
  qed
qed

lemma unsorted_devices_records:
  "unsorted_devices loads db run = collect_devices db (records_of loads run) {} []"
  by (cases run) (simp add: unsorted_devices_def records_of_def)

lemma get_input_devices_set:
  "set (get_input_devices_by_instance_id_pattern loads db run) =
     set (collect_devices db (records_of loads run) {} [])"
  by (simp add: get_input_devices_by_instance_id_pattern_def unsorted_devices_records)

lemma py_or_chain:
  "truthy (InstanceId d) \<Longrightarrow>
     py_or (FriendlyName d) (py_or (DeviceDescription d) (InstanceId d)) = Some (fallback_name d)"
  by (auto simp: py_or_def truthy_def fallback_name_def split: option.splits list.splits)

lemma fallback_name_nonempty: "truthy (InstanceId d) \<Longrightarrow> fallback_name d \<noteq> []"
  by (auto simp: truthy_def fallback_name_def split: option.splits list.splits)

lemma final_display_name_displayName:
  "truthy (InstanceId d) \<Longrightarrow> no_empty_values db \<Longrightarrow>
     py_format (final_display_name db d) = displayName db d"
  by (auto simp: final_display_name_def displayName_def Let_def device_key_of_derived_key
      py_or_chain py_format_def truthy_def no_empty_values_def split: option.splits)

lemma final_display_name_nonempty:
  "truthy (InstanceId d) \<Longrightarrow> py_format (final_display_name db d) \<noteq> []"
  using fallback_name_nonempty [of d]
  by (auto simp: final_display_name_def Let_def py_or_chain py_format_def truthy_def
      split: option.splits)

lemma appended_display:
  "e \<in> set (appended db d) \<Longrightarrow>
     truthy (InstanceId d) \<and> display_name e = py_format (final_display_name db d)
     \<and> vid_pid_key e = device_key_of d"
  by (auto simp: appended_def split: if_splits)

text \<open>
  C5. For every store without empty names and every entry of the device list, the
  display name is the override of the entry's key when there is one, else the friendly
  name, else the description, else the instance identifier (a name that is absent or
  empty is passed over), followed by the key in brackets when the record has a key. For
  every store, the display name of an entry is not empty and its key is the derived key
  of its record. The record of the specification's scenario gives \<open>Mouse X [1234:ABCD]\<close>.
\<close>

theorem display_name_of_entries:
  "(no_empty_values db \<longrightarrow>
      (\<forall>e\<in>set (get_input_devices_by_instance_id_pattern loads db run).
         display_name e = displayName db (full_info e)))
   \<and> (\<forall>e\<in>set (get_input_devices_by_instance_id_pattern loads db run).
         display_name e \<noteq> [] \<and> vid_pid_key e = derived_key (full_info e))
   \<and> map display_name
        (get_input_devices_by_instance_id_pattern (\<lambda>out. DevicesObject mouse_x) Map.empty
           (''{}'', [], 0)) = [''Mouse X [1234:ABCD]'']"
proof (intro conjI impI ballI)
  fix e
  assume inv: "no_empty_values db"
    and e: "e \<in> set (get_input_devices_by_instance_id_pattern loads db run)"
  from e have "e \<in> set (appended db (full_info e))"
    using collect_devices_entry by (simp add: get_input_devices_set)
  from appended_display [OF this] inv
  show "display_name e = displayName db (full_info e)"
    by (simp add: final_display_name_displayName)
next
  fix e
  assume e: "e \<in> set (get_input_devices_by_instance_id_pattern loads db run)"
  then have a: "e \<in> set (appended db (full_info e))"
    using collect_devices_entry by (simp add: get_input_devices_set)
  from appended_display [OF a] show "display_name e \<noteq> []"
    by (simp add: final_display_name_nonempty)
  from appended_display [OF a] show "vid_pid_key e = derived_key (full_info e)"
    by (simp add: device_key_of_derived_key)
next
  show "map display_name
        (get_input_devices_by_instance_id_pattern (\<lambda>out. DevicesObject mouse_x) Map.empty
           (''{}'', [], 0)) = [''Mouse X [1234:ABCD]'']"
    by code_simp
qed

theorem display_name_of_entries_witness:
  "no_empty_values Map.empty
   \<and> mouse_x_entry \<in> set (get_input_devices_by_instance_id_pattern
        (\<lambda>out. DevicesObject mouse_x) Map.empty (''{}'', [], 0))
   \<and> display_name mouse_x_entry = displayName Map.empty (full_info mouse_x_entry)
   \<and> display_name mouse_x_entry \<noteq> []
   \<and> vid_pid_key mouse_x_entry = derived_key (full_info mouse_x_entry)"
proof -
  have inv: "no_empty_values Map.empty"
    by (simp add: no_empty_values_def)
  have run: "get_input_devices_by_instance_id_pattern
        (\<lambda>out. DevicesObject mouse_x) Map.empty (''{}'', [], 0) = [mouse_x_entry]"
    by code_simp
  show ?thesis
    using inv run
      display_name_of_entries [of Map.empty "\<lambda>out. DevicesObject mouse_x" "(''{}'', [], 0)"]
    by auto
qed

lemma get_input_devices_sorted:
  "get_input_devices_by_instance_id_pattern loads db run =
     sort_key sort_name (collect_devices db (records_of loads run) {} [])"
  by (simp add: get_input_devices_by_instance_id_pattern_def unsorted_devices_records)

lemma distinct_map_sort_key:
  "distinct (map f (sort_key k xs)) = distinct (map f xs)"
  by (simp add: distinct_map)

text \<open>
  C6. The device list never holds two entries with the same instance identifier. Each
  entry is built from the first record, in input order, that has its instance identifier,
  and every record with a (non-empty) instance identifier is represented by an entry.
  Two records that share one instance identifier give exactly one entry, built from the
  first of them.
\<close>

theorem devices_unique_first_occurrence:
  "distinct (map id' (get_input_devices_by_instance_id_pattern loads db run))
   \<and> (\<forall>e\<in>set (get_input_devices_by_instance_id_pattern loads db run).
        List.find (\<lambda>r. InstanceId r = Some (id' e)) (records_of loads run) = Some (full_info e))
   \<and> (\<forall>r\<in>set (records_of loads run). truthy (InstanceId r) \<longrightarrow>
        (\<exists>e\<in>set (get_input_devices_by_instance_id_pattern loads db run).
           Some (id' e) = InstanceId r))
   \<and> (records_of loads run = [r1, r2] \<and> InstanceId r1 = InstanceId r2 \<and> truthy (InstanceId r1)
        \<longrightarrow> map full_info (get_input_devices_by_instance_id_pattern loads db run) = [r1])"
proof (intro conjI ballI impI)
  show "distinct (map id' (get_input_devices_by_instance_id_pattern loads db run))"
    by (simp add: get_input_devices_sorted distinct_map_sort_key collect_devices_distinct)
next
  fix e
  assume "e \<in> set (get_input_devices_by_instance_id_pattern loads db run)"
  then have "e \<in> set (collect_devices db (records_of loads run) {} [])"
    by (simp add: get_input_devices_set)
  then show "List.find (\<lambda>r. InstanceId r = Some (id' e)) (records_of loads run)
      = Some (full_info e)"
    by (rule collect_devices_first)
next
  fix r
  assume "r \<in> set (records_of loads run)" "truthy (InstanceId r)"
  then have "\<exists>e\<in>set (collect_devices db (records_of loads run) {} []). Some (id' e) = InstanceId r"
    by (intro collect_devices_complete) simp_all
  then show "\<exists>e\<in>set (get_input_devices_by_instance_id_pattern loads db run).
      Some (id' e) = InstanceId r"
    by (simp add: get_input_devices_set)
next
  assume a: "records_of loads run = [r1, r2] \<and> InstanceId r1 = InstanceId r2
      \<and> truthy (InstanceId r1)"
  then have "collect_devices db (records_of loads run) {} [] = appended db r1"
    by simp
  moreover have "length (appended db r1) = 1" "map full_info (appended db r1) = [r1]"
    using a by (auto simp: appended_def)
  ultimately show "map full_info (get_input_devices_by_instance_id_pattern loads db run) = [r1]"
    by (cases "appended db r1") (auto simp: get_input_devices_sorted)
qed

theorem devices_unique_first_occurrence_witness:
  "records_of (\<lambda>out. DevicesArray [named ''a'' ''zebra'', named ''a'' ''Apple'']) (''[]'', [], 0)
     = [named ''a'' ''zebra'', named ''a'' ''Apple'']
   \<and> InstanceId (named ''a'' ''zebra'') = InstanceId (named ''a'' ''Apple'')
   \<and> truthy (InstanceId (named ''a'' ''zebra''))
   \<and> map full_info
        (get_input_devices_by_instance_id_pattern
           (\<lambda>out. DevicesArray [named ''a'' ''zebra'', named ''a'' ''Apple'']) Map.empty
           (''[]'', [], 0)) = [named ''a'' ''zebra'']
   \<and> zebra_entry \<in> set (get_input_devices_by_instance_id_pattern
           (\<lambda>out. DevicesArray [named ''a'' ''zebra'', named ''a'' ''Apple'']) Map.empty
           (''[]'', [], 0))
   \<and> List.find (\<lambda>r. InstanceId r = Some (id' zebra_entry))
        (records_of (\<lambda>out. DevicesArray [named ''a'' ''zebra'', named ''a'' ''Apple''])
           (''[]'', [], 0)) = Some (full_info zebra_entry)
   \<and> distinct (map id'
        (get_input_devices_by_instance_id_pattern
           (\<lambda>out. DevicesArray [named ''a'' ''zebra'', named ''a'' ''Apple'']) Map.empty
           (''[]'', [], 0)))"
proof -
  have recs: "records_of (\<lambda>out. DevicesArray [named ''a'' ''zebra'', named ''a'' ''Apple''])
      (''[]'', [], 0) = [named ''a'' ''zebra'', named ''a'' ''Apple'']"
    by (simp add: records_of_def json_data_of_def)
  have same: "InstanceId (named ''a'' ''zebra'') = InstanceId (named ''a'' ''Apple'')"
    "truthy (InstanceId (named ''a'' ''zebra''))"
    by (simp_all add: named_def truthy_def)
  have run: "get_input_devices_by_instance_id_pattern
      (\<lambda>out. DevicesArray [named ''a'' ''zebra'', named ''a'' ''Apple'']) Map.empty
      (''[]'', [], 0) = [zebra_entry]"
    by code_simp
  show ?thesis
    using recs same run
      devices_unique_first_occurrence
        [of "\<lambda>out. DevicesArray [named ''a'' ''zebra'', named ''a'' ''Apple'']" Map.empty
          "(''[]'', [], 0)" "named ''a'' ''zebra''" "named ''a'' ''Apple''"]
    by auto
qed

text \<open>
  C7. The device list is sorted by the lower-cased display name. Entries whose
  lower-cased names are equal stand in the order in which the loop appended them, which
  is the order of their records in the input. The names \<open>zebra\<close>, \<open>Apple\<close> come out as
  \<open>Apple\<close>, \<open>zebra\<close>, and \<open>mouse\<close>, \<open>Zed\<close>, \<open>Mouse\<close> as \<open>mouse\<close>, \<open>Mouse\<close>, \<open>Zed\<close>.
  The whole lower-cased name is compared, code point by code point, a prefix before its
  extensions: \<open>ab\<close>, \<open>Aa\<close>, \<open>a\<close>, \<open>AB\<close> come out as \<open>a\<close>, \<open>Aa\<close>, \<open>ab\<close>, \<open>AB\<close>. Lower-casing
  moves \<open>A\<close> to \<open>Z\<close> and the capital letters among the code points 192 to 222, and
  nothing else below 256: a name that starts with a-umlaut (228) stays before one that
  starts with capital O-umlaut (214, lowered to 246).
\<close>

theorem devices_sorted_stable:
  "sorted (map sort_name (get_input_devices_by_instance_id_pattern loads db run))
   \<and> filter (\<lambda>e. sort_name e = k) (get_input_devices_by_instance_id_pattern loads db run) =
       filter (\<lambda>e. sort_name e = k) (unsorted_devices loads db run)
   \<and> subseq (map full_info (unsorted_devices loads db run)) (records_of loads run)
   \<and> map display_name
        (get_input_devices_by_instance_id_pattern
           (\<lambda>out. DevicesArray [named ''a'' ''zebra'', named ''b'' ''Apple'']) Map.empty
           (''[]'', [], 0)) = [''Apple'', ''zebra'']
   \<and> map display_name
        (get_input_devices_by_instance_id_pattern
           (\<lambda>out. DevicesArray [named ''a'' ''mouse'', named ''b'' ''Zed'', named ''c'' ''Mouse''])
           Map.empty (''[]'', [], 0)) = [''mouse'', ''Mouse'', ''Zed'']
   \<and> map display_name
        (get_input_devices_by_instance_id_pattern
           (\<lambda>out. DevicesArray
              [named ''a'' ''ab'', named ''b'' ''Aa'', named ''c'' ''a'', named ''d'' ''AB''])
           Map.empty (''[]'', [], 0)) = [''a'', ''Aa'', ''ab'', ''AB'']
   \<and> map display_name
        (get_input_devices_by_instance_id_pattern
           (\<lambda>out. DevicesArray
              [named ''a'' [CHR 0xE4, CHR ''b''], named ''b'' [CHR 0xD6, CHR ''a'']])
           Map.empty (''[]'', [], 0)) = [[CHR 0xE4, CHR ''b''], [CHR 0xD6, CHR ''a'']]
   \<and> map display_name
        (get_input_devices_by_instance_id_pattern
           (\<lambda>out. DevicesArray
              [named ''a'' [CHR 0xD6, CHR ''b''], named ''b'' [CHR 0xF6, CHR ''a'']])
           Map.empty (''[]'', [], 0)) = [[CHR 0xF6, CHR ''a''], [CHR 0xD6, CHR ''b'']]
   \<and> sort_name entry = py_lower (display_name entry)
   \<and> py_lower (map char_of [0::nat ..< 256]) =
       map char_of ([0::nat ..< 65] @ [97 ..< 123] @ [91 ..< 192] @ [224 ..< 247] @ [215]
                    @ [248 ..< 255] @ [223 ..< 256])"
proof (intro conjI)
  show "sort_name entry = py_lower (display_name entry)"
    by (simp add: sort_name_def)
  show "py_lower (map char_of [0::nat ..< 256]) =
       map char_of ([0::nat ..< 65] @ [97 ..< 123] @ [91 ..< 192] @ [224 ..< 247] @ [215]
                    @ [248 ..< 255] @ [223 ..< 256])"
    by code_simp
  show "map display_name
        (get_input_devices_by_instance_id_pattern
           (\<lambda>out. DevicesArray
              [named ''a'' ''ab'', named ''b'' ''Aa'', named ''c'' ''a'', named ''d'' ''AB''])
           Map.empty (''[]'', [], 0)) = [''a'', ''Aa'', ''ab'', ''AB'']"
    by code_simp
  show "map display_name
        (get_input_devices_by_instance_id_pattern
           (\<lambda>out. DevicesArray
              [named ''a'' [CHR 0xE4, CHR ''b''], named ''b'' [CHR 0xD6, CHR ''a'']])
           Map.empty (''[]'', [], 0)) = [[CHR 0xE4, CHR ''b''], [CHR 0xD6, CHR ''a'']]"
    by code_simp
  show "map display_name
        (get_input_devices_by_instance_id_pattern
           (\<lambda>out. DevicesArray
              [named ''a'' [CHR 0xD6, CHR ''b''], named ''b'' [CHR 0xF6, CHR ''a'']])
           Map.empty (''[]'', [], 0)) = [[CHR 0xF6, CHR ''a''], [CHR 0xD6, CHR ''b'']]"
    by code_simp
  show "sorted (map sort_name (get_input_devices_by_instance_id_pattern loads db run))"
    by (simp add: get_input_devices_by_instance_id_pattern_def)
  show "filter (\<lambda>e. sort_name e = k) (get_input_devices_by_instance_id_pattern loads db run) =
       filter (\<lambda>e. sort_name e = k) (unsorted_devices loads db run)"
    by (simp add: get_input_devices_by_instance_id_pattern_def sort_key_stable)
  show "subseq (map full_info (unsorted_devices loads db run)) (records_of loads run)"
    by (simp add: unsorted_devices_records collect_devices_subseq)
  show "map display_name
        (get_input_devices_by_instance_id_pattern
           (\<lambda>out. DevicesArray [named ''a'' ''zebra'', named ''b'' ''Apple'']) Map.empty
           (''[]'', [], 0)) = [''Apple'', ''zebra'']"
    by code_simp
  show "map display_name
        (get_input_devices_by_instance_id_pattern
           (\<lambda>out. DevicesArray [named ''a'' ''mouse'', named ''b'' ''Zed'', named ''c'' ''Mouse''])
           Map.empty (''[]'', [], 0)) = [''mouse'', ''Mouse'', ''Zed'']"
    by code_simp
qed

section \<open>Selecting a device after a refresh\<close>

lemma list_ex_find: "list_ex P xs \<longleftrightarrow> List.find P xs \<noteq> None"
  by (auto simp: list_ex_iff find_None_iff)

lemma get_input_devices_ids:
  "e \<in> set (get_input_devices_by_instance_id_pattern loads db run) \<Longrightarrow> id' e \<noteq> []"
  using collect_devices_entry [of e db "records_of loads run" "{}"]
    appended_entry [of e db "full_info e"]
  by (simp add: get_input_devices_set)

lemma update_populate_gui_select:
  assumes "\<forall>e\<in>set directory. id' e \<noteq> []"
  shows "current_selected_device_id (update_populate_gui directory previous) =
           map_option id' (selectDevice directory previous)
         \<and> combobox_shown (update_populate_gui directory previous) =
           (case selectDevice directory previous of
              Some e \<Rightarrow> ShowName (display_name e) | None \<Rightarrow> NoDevices)"
proof (cases previous)
  case None
  then show ?thesis
    by (simp add: update_populate_gui_def selectDevice_def truthy_def Let_def split: list.splits)
next
  case (Some p)
  show ?thesis
  proof (cases "p = []")
    case True
    have "List.find (\<lambda>e. id' e = []) directory = None"
      using assms by (simp add: find_None_iff)
    with True Some show ?thesis
      by (simp add: update_populate_gui_def selectDevice_def truthy_def Let_def split: list.splits)
  next
    case False
    with Some show ?thesis
      by (cases "List.find (\<lambda>e. id' e = p) directory")
         (simp_all add: update_populate_gui_def selectDevice_def truthy_def Let_def list_ex_find
            split: list.splits)
  qed
qed

text \<open>
  C9. For every directory whose entries have non-empty instance identifiers, as every
  directory the enumeration builds has, and every previous instance identifier, the
  identifier selected after a refresh and the name shown are those of the entry the
  policy of the specification picks: the entry with the previous identifier when there
  is one, else the first entry of the sorted directory, else none for an empty
  directory. The selection is a function of the directory and the previous identifier
  alone.
\<close>

theorem update_populate_gui_selectDevice:
  "((\<forall>e\<in>set directory. id' e \<noteq> []) \<longrightarrow>
      current_selected_device_id (update_populate_gui directory previous) =
        map_option id' (selectDevice directory previous)
      \<and> combobox_shown (update_populate_gui directory previous) =
        (case selectDevice directory previous of
           Some e \<Rightarrow> ShowName (display_name e) | None \<Rightarrow> NoDevices))
   \<and> current_selected_device_id
        (update_populate_gui (get_input_devices_by_instance_id_pattern loads db run) previous) =
        map_option id'
          (selectDevice (get_input_devices_by_instance_id_pattern loads db run) previous)
   \<and> (p \<noteq> [] \<and> List.find (\<lambda>e. id' e = p) directory = Some chosen \<longrightarrow>
        current_selected_device_id (update_populate_gui directory (Some p)) = Some p
        \<and> combobox_shown (update_populate_gui directory (Some p)) = ShowName (display_name chosen))
   \<and> (List.find (\<lambda>e. id' e = p) (first # others) = None \<longrightarrow>
        current_selected_device_id (update_populate_gui (first # others) (Some p))
          = Some (id' first))
   \<and> current_selected_device_id (update_populate_gui (first # others) None) = Some (id' first)
   \<and> current_selected_device_id (update_populate_gui [] previous) = None"
proof (intro conjI impI)
  assume "\<forall>e\<in>set directory. id' e \<noteq> []"
  from update_populate_gui_select [OF this]
  show "current_selected_device_id (update_populate_gui directory previous) =
        map_option id' (selectDevice directory previous)"
    and "combobox_shown (update_populate_gui directory previous) =
        (case selectDevice directory previous of
           Some e \<Rightarrow> ShowName (display_name e) | None \<Rightarrow> NoDevices)"
    by simp_all
next
  have "\<forall>e\<in>set (get_input_devices_by_instance_id_pattern loads db run). id' e \<noteq> []"
    using get_input_devices_ids by blast
  from update_populate_gui_select [OF this]
  show "current_selected_device_id
        (update_populate_gui (get_input_devices_by_instance_id_pattern loads db run) previous) =
        map_option id'
          (selectDevice (get_input_devices_by_instance_id_pattern loads db run) previous)"
    by simp
next
  assume a: "p \<noteq> [] \<and> List.find (\<lambda>e. id' e = p) directory = Some chosen"
  then have "id' chosen = p"
    by (auto simp: find_Some_iff)
  with a show "current_selected_device_id (update_populate_gui directory (Some p)) = Some p"
    and "combobox_shown (update_populate_gui directory (Some p)) = ShowName (display_name chosen)"
    by (simp_all add: update_populate_gui_def truthy_def Let_def list_ex_find)
next
  assume "List.find (\<lambda>e. id' e = p) (first # others) = None"
  then show "current_selected_device_id (update_populate_gui (first # others) (Some p))
          = Some (id' first)"
    by (simp add: update_populate_gui_def truthy_def Let_def list_ex_find del: find.simps)
next
  show "current_selected_device_id (update_populate_gui (first # others) None) = Some (id' first)"
    by (simp add: update_populate_gui_def truthy_def Let_def)
next
  show "current_selected_device_id (update_populate_gui [] previous) = None"
    by (simp add: update_populate_gui_def truthy_def Let_def)
qed

theorem update_populate_gui_selectDevice_witness:
  "id' apple_entry \<noteq> [] \<and> id' zebra_entry \<noteq> []
   \<and> current_selected_device_id (update_populate_gui [apple_entry, zebra_entry] (Some ''a'')) =
       map_option id' (selectDevice [apple_entry, zebra_entry] (Some ''a''))
   \<and> ''a'' \<noteq> []
   \<and> List.find (\<lambda>e. id' e = ''a'') [apple_entry, zebra_entry] = Some zebra_entry
   \<and> current_selected_device_id (update_populate_gui [apple_entry, zebra_entry] (Some ''a''))
       = Some ''a''
   \<and> combobox_shown (update_populate_gui [apple_entry, zebra_entry] (Some ''a''))
       = ShowName ''zebra''
   \<and> List.find (\<lambda>e. id' e = ''gone'') [apple_entry, zebra_entry] = None
   \<and> current_selected_device_id (update_populate_gui [apple_entry, zebra_entry] (Some ''gone''))
       = Some ''b''"
proof -
  have ids: "id' apple_entry = ''b''" "id' zebra_entry = ''a''"
    "display_name zebra_entry = ''zebra''"
    by (simp_all add: apple_entry_def zebra_entry_def)
  have found: "List.find (\<lambda>e. id' e = ''a'') [apple_entry, zebra_entry] = Some zebra_entry"
    "List.find (\<lambda>e. id' e = ''gone'') [apple_entry, zebra_entry] = None"
    by (simp_all add: ids)
  have nonempty: "\<forall>e\<in>set [apple_entry, zebra_entry]. id' e \<noteq> []"
    by (simp add: ids)
  note at_a = update_populate_gui_selectDevice
    [where directory = "[apple_entry, zebra_entry]" and previous = "Some ''a''"
       and p = "''a''" and chosen = zebra_entry and first = apple_entry
       and others = "[zebra_entry]"]
  note at_gone = update_populate_gui_selectDevice
    [where directory = "[apple_entry, zebra_entry]" and previous = "Some ''gone''"
       and p = "''gone''" and chosen = zebra_entry and first = apple_entry
       and others = "[zebra_entry]"]
  from at_a nonempty
  have policy: "current_selected_device_id
      (update_populate_gui [apple_entry, zebra_entry] (Some ''a'')) =
      map_option id' (selectDevice [apple_entry, zebra_entry] (Some ''a''))"
    by blast
  have "''a'' \<noteq> [] \<and> List.find (\<lambda>e. id' e = ''a'') [apple_entry, zebra_entry] = Some zebra_entry"
    using found(1) by simp
  with at_a
  have kept: "current_selected_device_id
      (update_populate_gui [apple_entry, zebra_entry] (Some ''a'')) = Some ''a''
    \<and> combobox_shown (update_populate_gui [apple_entry, zebra_entry] (Some ''a''))
      = ShowName (display_name zebra_entry)"
    by blast
  from at_gone found(2)
  have fallback: "current_selected_device_id
      (update_populate_gui [apple_entry, zebra_entry] (Some ''gone'')) = Some (id' apple_entry)"
    by blast
  show ?thesis
    using policy kept fallback found by (simp add: ids)
qed

end
